theory Spec2Isabelle
  imports Main
begin

section \<open>Discussion-forum backend (src/Node.js): data model\<close>

text \<open>
  The three Mongoose schemas of the source become records. Every stored document also
  carries the \<open>_id\<close> that Mongoose generates when the document is constructed. An
  ObjectId is modelled by a natural number drawn from a counter, so that two constructed
  documents never share one. \<open>upvotes\<close> is a JavaScript Number; the program never
  computes with it (it is only stored and returned), so it is modelled by \<open>int\<close>.
\<close>

record user =
  u_id :: nat
  firstName :: string
  lastName :: string
  email :: string
  password :: string

record question =
  q_id :: nat
  title :: string
  description :: string
  resolved :: bool
  upvotes :: int

record reply =
  r_id :: nat
  content :: string
  questionId :: nat

text \<open>
  The document store: the three collections in their natural (insertion) order, and the
  ObjectId generator.
\<close>

record store =
  users :: "user list"
  questions :: "question list"
  replies :: "reply list"
  next_id :: nat

definition empty_store :: store where
  "empty_store = \<lparr>users = [], questions = [], replies = [], next_id = 0\<rparr>"

text \<open>
  \<open>req.body\<close>, the parsed JSON object. Each key the handlers destructure is either
  absent (\<open>undefined\<close> after destructuring, \<open>None\<close> here) or present with a value of
  the JSON type that the schema declares for it. A body may carry any of the keys,
  whichever route it is sent to; every handler reads only the keys it destructures.
  Values of another JSON type (and \<open>null\<close>) go through Mongoose's casting rules and
  are outside this model.
\<close>

record body =
  b_firstName :: "string option"
  b_lastName :: "string option"
  b_email :: "string option"
  b_password :: "string option"
  b_title :: "string option"
  b_description :: "string option"
  b_resolved :: "bool option"
  b_upvotes :: "int option"
  b_content :: "string option"

definition empty_body :: body where
  "empty_body = \<lparr>b_firstName = None, b_lastName = None, b_email = None,
     b_password = None, b_title = None, b_description = None, b_resolved = None,
     b_upvotes = None, b_content = None\<rparr>"

text \<open>
  \<open>req.params.id\<close> is a string of the path. Mongoose casts it to an ObjectId where a
  query uses it; the string either is the text of an ObjectId or is not.
\<close>

datatype param = ObjectId nat | NotObjectId string

text \<open>
  The errors that the awaited calls of the handlers can throw: Mongoose's validation
  error (with the paths whose \<open>required\<close> validator failed), Mongoose's cast error for
  a path parameter that is no ObjectId, the error bcrypt raises when its data argument
  is missing, and the store's duplicate-key error of the unique index on \<open>email\<close>.
  Failures of the connection to the store are not modelled.
\<close>

datatype error =
    ValidationError "string list"
  | CastError string
  | BcryptArgumentsRequired
  | DuplicateKey string

text \<open>The JSON payloads that the handlers send, one constructor per shape.\<close>

datatype payload =
    Message string
  | MessageError string error
  | ErrorMessage error
  | MessageUser string user
  | MessageQuestion string question
  | MessageReply string reply
  | QuestionArray "question list"
  | ReplyArray "reply list"

record response =
  status :: nat
  payload :: payload

section \<open>The collaborators: Mongoose models and bcrypt\<close>

text \<open>
  What a query does with a filter whose value is \<open>undefined\<close> (here: \<open>{ email }\<close>
  when the body has no \<open>email\<close> key) differs between versions of Mongoose and of the
  driver: the key is dropped, so that the filter matches every document, or it is sent
  as \<open>null\<close>, which matches the documents lacking the field; no stored user lacks
  \<open>email\<close>. The model takes the behaviour as a parameter.
\<close>

datatype undefined_filter = DropsKey | SendsNull

definition User_findOne :: "undefined_filter \<Rightarrow> store \<Rightarrow> string option \<Rightarrow> user option" where
  "User_findOne uf s e =
     (case e of
        Some a \<Rightarrow> find (\<lambda>u. email u = a) (users s)
      | None \<Rightarrow> (case uf of DropsKey \<Rightarrow> find (\<lambda>u. True) (users s) | SendsNull \<Rightarrow> None))"

text \<open>
  \<open>bcrypt.hash(password, 10)\<close> and \<open>bcrypt.compare(password, digest)\<close>. The hashing
  itself (with the salt of the call) and the verification are parameters \<open>h\<close> and
  \<open>c\<close>; both calls reject when the data argument is \<open>undefined\<close>.
\<close>

definition bcrypt_hash :: "(string \<Rightarrow> string) \<Rightarrow> string option \<Rightarrow> error + string" where
  "bcrypt_hash h pw = (case pw of None \<Rightarrow> Inl BcryptArgumentsRequired | Some p \<Rightarrow> Inr (h p))"

definition bcrypt_compare :: "(string \<Rightarrow> string \<Rightarrow> bool) \<Rightarrow> string option \<Rightarrow> string \<Rightarrow> error + bool" where
  "bcrypt_compare c pw digest =
     (case pw of None \<Rightarrow> Inl BcryptArgumentsRequired | Some p \<Rightarrow> Inr (c p digest))"

text \<open>
  Constructing a document (\<open>new Model({...})\<close>) draws a new ObjectId, whether or not
  the document is saved afterwards.
\<close>

definition fresh_id :: "store \<Rightarrow> nat \<times> store" where
  "fresh_id s = (next_id s, s\<lparr>next_id := Suc (next_id s)\<rparr>)"

text \<open>
  The \<open>required\<close> validator of a String path fails on \<open>undefined\<close> and on the empty
  string.
\<close>

definition required :: "string \<Rightarrow> string option \<Rightarrow> string list" where
  "required path v = (case v of None \<Rightarrow> [path] | Some x \<Rightarrow> if x = [] then [path] else [])"

text \<open>
  \<open>save()\<close> of a new document validates it, then inserts it; the insert of a user is
  refused by the unique index when the email is already stored.
\<close>

definition User_save ::
  "store \<Rightarrow> nat \<Rightarrow> string option \<Rightarrow> string option \<Rightarrow> string option \<Rightarrow> string option \<Rightarrow> error + store" where
  "User_save s i fn ln em pw =
     (case (fn, ln, em, pw) of
        (Some f, Some l, Some e, Some p) \<Rightarrow>
          if f = [] \<or> l = [] \<or> e = [] \<or> p = [] then
            Inl (ValidationError (required ''firstName'' fn @ required ''lastName'' ln
                   @ required ''email'' em @ required ''password'' pw))
          else if find (\<lambda>u. email u = e) (users s) \<noteq> None then Inl (DuplicateKey e)
          else Inr (s\<lparr>users := users s
                 @ [\<lparr>u_id = i, firstName = f, lastName = l, email = e, password = p\<rparr>]\<rparr>)
      | _ \<Rightarrow>
          Inl (ValidationError (required ''firstName'' fn @ required ''lastName'' ln
                 @ required ''email'' em @ required ''password'' pw)))"

definition Question_save_new ::
  "store \<Rightarrow> nat \<Rightarrow> string option \<Rightarrow> string option \<Rightarrow> error + question \<times> store" where
  "Question_save_new s i t d =
     (case (t, d) of
        (Some t', Some d') \<Rightarrow>
          if t' = [] \<or> d' = [] then
            Inl (ValidationError (required ''title'' t @ required ''description'' d))
          else
            (let q = \<lparr>q_id = i, title = t', description = d', resolved = False, upvotes = 0\<rparr>
             in Inr (q, s\<lparr>questions := questions s @ [q]\<rparr>))
      | _ \<Rightarrow> Inl (ValidationError (required ''title'' t @ required ''description'' d)))"

definition Reply_save_new ::
  "store \<Rightarrow> nat \<Rightarrow> string option \<Rightarrow> nat \<Rightarrow> error + reply \<times> store" where
  "Reply_save_new s i c qid =
     (case c of
        Some c' \<Rightarrow>
          if c' = [] then Inl (ValidationError (required ''content'' c))
          else
            (let r = \<lparr>r_id = i, content = c', questionId = qid\<rparr>
             in Inr (r, s\<lparr>replies := replies s @ [r]\<rparr>))
      | None \<Rightarrow> Inl (ValidationError (required ''content'' c)))"

definition Question_find :: "store \<Rightarrow> question list" where
  "Question_find s = questions s"

definition Question_findById :: "store \<Rightarrow> param \<Rightarrow> error + question option" where
  "Question_findById s p =
     (case p of
        NotObjectId v \<Rightarrow> Inl (CastError v)
      | ObjectId i \<Rightarrow> Inr (find (\<lambda>q. q_id q = i) (questions s)))"

text \<open>\<open>save()\<close> of a document that was read from the store writes it back under its \<open>_id\<close>.\<close>

fun write_back :: "question \<Rightarrow> question list \<Rightarrow> question list" where
  "write_back q [] = []"
| "write_back q (x # xs) = (if q_id x = q_id q then q # xs else x # write_back q xs)"

definition Question_save :: "store \<Rightarrow> question \<Rightarrow> store" where
  "Question_save s q = s\<lparr>questions := write_back q (questions s)\<rparr>"

fun delete_one :: "nat \<Rightarrow> question list \<Rightarrow> question list" where
  "delete_one i [] = []"
| "delete_one i (x # xs) = (if q_id x = i then xs else x # delete_one i xs)"

definition Question_findByIdAndDelete :: "store \<Rightarrow> param \<Rightarrow> error + question option \<times> store" where
  "Question_findByIdAndDelete s p =
     (case p of
        NotObjectId v \<Rightarrow> Inl (CastError v)
      | ObjectId i \<Rightarrow>
          Inr (find (\<lambda>q. q_id q = i) (questions s),
               s\<lparr>questions := delete_one i (questions s)\<rparr>))"

definition Reply_find :: "store \<Rightarrow> param \<Rightarrow> error + reply list" where
  "Reply_find s p =
     (case p of
        NotObjectId v \<Rightarrow> Inl (CastError v)
      | ObjectId i \<Rightarrow> Inr (filter (\<lambda>r. questionId r = i) (replies s)))"

section \<open>The route handlers\<close>

text \<open>
  Each handler takes the store and the request and returns the response it sends and
  the store it leaves. The branches follow the source: an early \<open>return res.status(...)\<close>
  is a branch of its own, and the \<open>catch\<close> block is the \<open>Inl\<close> branch of the call
  that threw.
\<close>

definition post_signup ::
  "undefined_filter \<Rightarrow> (string \<Rightarrow> string) \<Rightarrow> store \<Rightarrow> body \<Rightarrow> response \<times> store" where
  "post_signup uf h s b =
     (case User_findOne uf s (b_email b) of
        Some existingUser \<Rightarrow> (\<lparr>status = 400, payload = Message ''Email already in use''\<rparr>, s)
      | None \<Rightarrow>
          (case bcrypt_hash h (b_password b) of
             Inl err \<Rightarrow> (\<lparr>status = 500, payload = MessageError ''Error during signup'' err\<rparr>, s)
           | Inr hashedPassword \<Rightarrow>
               (case fresh_id s of
                  (i, s1) \<Rightarrow>
                    (case User_save s1 i (b_firstName b) (b_lastName b) (b_email b)
                            (Some hashedPassword) of
                       Inl err \<Rightarrow>
                         (\<lparr>status = 500, payload = MessageError ''Error during signup'' err\<rparr>, s1)
                     | Inr s2 \<Rightarrow>
                         (\<lparr>status = 201, payload = Message ''User registered successfully!''\<rparr>,
                          s2)))))"

definition post_login ::
  "undefined_filter \<Rightarrow> (string \<Rightarrow> string \<Rightarrow> bool) \<Rightarrow> store \<Rightarrow> body \<Rightarrow> response \<times> store" where
  "post_login uf c s b =
     (case User_findOne uf s (b_email b) of
        None \<Rightarrow> (\<lparr>status = 400, payload = Message ''Invalid email or password''\<rparr>, s)
      | Some usr \<Rightarrow>
          (case bcrypt_compare c (b_password b) (password usr) of
             Inl err \<Rightarrow> (\<lparr>status = 500, payload = MessageError ''Error during login'' err\<rparr>, s)
           | Inr isPasswordValid \<Rightarrow>
               if \<not> isPasswordValid then
                 (\<lparr>status = 400, payload = Message ''Invalid email or password''\<rparr>, s)
               else (\<lparr>status = 200, payload = MessageUser ''Login successful'' usr\<rparr>, s)))"

definition get_questions :: "store \<Rightarrow> response \<times> store" where
  "get_questions s = (\<lparr>status = 200, payload = QuestionArray (Question_find s)\<rparr>, s)"

definition post_questions :: "store \<Rightarrow> body \<Rightarrow> response \<times> store" where
  "post_questions s b =
     (case fresh_id s of
        (i, s1) \<Rightarrow>
          (case Question_save_new s1 i (b_title b) (b_description b) of
             Inl err \<Rightarrow> (\<lparr>status = 400, payload = ErrorMessage err\<rparr>, s1)
           | Inr (q, s2) \<Rightarrow>
               (\<lparr>status = 201, payload = MessageQuestion ''Question created successfully!'' q\<rparr>,
                s2)))"

definition patch_question :: "store \<Rightarrow> param \<Rightarrow> body \<Rightarrow> response \<times> store" where
  "patch_question s p b =
     (case Question_findById s p of
        Inl err \<Rightarrow> (\<lparr>status = 400, payload = ErrorMessage err\<rparr>, s)
      | Inr None \<Rightarrow> (\<lparr>status = 404, payload = Message ''Question not found''\<rparr>, s)
      | Inr (Some q) \<Rightarrow>
          (let q1 = (case b_resolved b of None \<Rightarrow> q | Some r \<Rightarrow> q\<lparr>resolved := r\<rparr>);
               q2 = (case b_upvotes b of None \<Rightarrow> q1 | Some n \<Rightarrow> q1\<lparr>upvotes := n\<rparr>)
           in (\<lparr>status = 200, payload = MessageQuestion ''Question updated successfully!'' q2\<rparr>,
               Question_save s q2)))"

definition delete_question :: "store \<Rightarrow> param \<Rightarrow> response \<times> store" where
  "delete_question s p =
     (case Question_findByIdAndDelete s p of
        Inl err \<Rightarrow> (\<lparr>status = 500, payload = ErrorMessage err\<rparr>, s)
      | Inr (None, s1) \<Rightarrow> (\<lparr>status = 404, payload = Message ''Question not found''\<rparr>, s1)
      | Inr (Some q, s1) \<Rightarrow>
          (\<lparr>status = 200, payload = Message ''Question deleted successfully!''\<rparr>, s1))"

text \<open>
  In \<open>new Reply({ content, questionId: id })\<close> the path parameter is cast to the
  ObjectId that \<open>findById\<close> has just matched, the \<open>_id\<close> of the question found.
\<close>

definition post_reply :: "store \<Rightarrow> param \<Rightarrow> body \<Rightarrow> response \<times> store" where
  "post_reply s p b =
     (case Question_findById s p of
        Inl err \<Rightarrow> (\<lparr>status = 400, payload = ErrorMessage err\<rparr>, s)
      | Inr None \<Rightarrow> (\<lparr>status = 404, payload = Message ''Question not found''\<rparr>, s)
      | Inr (Some q) \<Rightarrow>
          (case fresh_id s of
             (i, s1) \<Rightarrow>
               (case Reply_save_new s1 i (b_content b) (q_id q) of
                  Inl err \<Rightarrow> (\<lparr>status = 400, payload = ErrorMessage err\<rparr>, s1)
                | Inr (r, s2) \<Rightarrow>
                    (\<lparr>status = 201, payload = MessageReply ''Reply added successfully!'' r\<rparr>,
                     s2))))"

definition get_replies :: "store \<Rightarrow> param \<Rightarrow> response \<times> store" where
  "get_replies s p =
     (case Reply_find s p of
        Inl err \<Rightarrow> (\<lparr>status = 500, payload = ErrorMessage err\<rparr>, s)
      | Inr rs \<Rightarrow> (\<lparr>status = 200, payload = ReplyArray rs\<rparr>, s))"

section \<open>Sequences of requests\<close>

text \<open>
  A request names its route and carries what the handler reads. A signup request also
  carries the salt that bcrypt draws for it. The server's environment fixes the
  behaviour of the collaborators.
\<close>

datatype request =
    Signup nat body
  | Login body
  | GetQuestions
  | PostQuestion body
  | PatchQuestion param body
  | DeleteQuestion param
  | PostReply param body
  | GetReplies param

record env =
  undefinedFilter :: undefined_filter
  hash :: "nat \<Rightarrow> string \<Rightarrow> string"
  verify :: "string \<Rightarrow> string \<Rightarrow> bool"

fun handle :: "env \<Rightarrow> store \<Rightarrow> request \<Rightarrow> response \<times> store" where
  "handle e s (Signup salt b) = post_signup (undefinedFilter e) (hash e salt) s b"
| "handle e s (Login b) = post_login (undefinedFilter e) (verify e) s b"
| "handle e s GetQuestions = get_questions s"
| "handle e s (PostQuestion b) = post_questions s b"
| "handle e s (PatchQuestion p b) = patch_question s p b"
| "handle e s (DeleteQuestion p) = delete_question s p"
| "handle e s (PostReply p b) = post_reply s p b"
| "handle e s (GetReplies p) = get_replies s p"

fun run :: "env \<Rightarrow> store \<Rightarrow> request list \<Rightarrow> store" where
  "run e s [] = s"
| "run e s (r # rs) = run e (snd (handle e s r)) rs"

section \<open>Invariants of the store\<close>

text \<open>
  Question identifiers are pairwise distinct and were all drawn from the generator.
  The empty store satisfies this and every handler keeps it.
\<close>

definition ids_ok :: "store \<Rightarrow> bool" where
  "ids_ok s = (distinct (map q_id (questions s)) \<and> (\<forall>q\<in>set (questions s). q_id q < next_id s))"

text \<open>
  An identifier is retired when the generator has issued it and no stored question
  carries it.
\<close>

definition retired :: "nat \<Rightarrow> store \<Rightarrow> bool" where
  "retired i s = (i < next_id s \<and> (\<forall>q\<in>set (questions s). q_id q \<noteq> i))"

section \<open>Concrete inputs\<close>

text \<open>
  A toy credential service (the digest is the password behind a marker), a store with one
  user, and the environment built from them, used to run the handlers on concrete
  requests.
\<close>

definition hash1 :: "nat \<Rightarrow> string \<Rightarrow> string" where
  "hash1 salt p = CHR ''#'' # p"

definition verify1 :: "string \<Rightarrow> string \<Rightarrow> bool" where
  "verify1 p d = (d = CHR ''#'' # p)"

definition env1 :: env where
  "env1 = \<lparr>undefinedFilter = SendsNull, hash = hash1, verify = verify1\<rparr>"

definition store1 :: store where
  "store1 = \<lparr>users = [\<lparr>u_id = 0, firstName = ''Ada'', lastName = ''L'', email = ''ada@x.org'',
     password = ''#pw''\<rparr>], questions = [], replies = [], next_id = 1\<rparr>"

definition credentials :: "string \<Rightarrow> string \<Rightarrow> body" where
  "credentials e p = empty_body\<lparr>b_email := Some e, b_password := Some p\<rparr>"

definition ada :: body where
  "ada = empty_body\<lparr>b_firstName := Some ''Ada'', b_lastName := Some ''L'',
     b_email := Some ''ada@x.org'', b_password := Some ''pw''\<rparr>"

definition ask :: "string \<Rightarrow> string \<Rightarrow> body" where
  "ask t d = empty_body\<lparr>b_title := Some t, b_description := Some d\<rparr>"

definition no_first_name :: body where
  "no_first_name = empty_body\<lparr>b_lastName := Some ''L'', b_email := Some ''ada@x.org'',
     b_password := Some ''pw''\<rparr>"

definition say :: "string \<Rightarrow> body" where
  "say c = empty_body\<lparr>b_content := Some c\<rparr>"

definition store2 :: store where
  "store2 = \<lparr>users = [],
     questions = [\<lparr>q_id = 0, title = ''T'', description = ''D'', resolved = False, upvotes = 3\<rparr>],
     replies = [], next_id = 1\<rparr>"

definition orphaned :: store where
  "orphaned = run env1 empty_store
     [PostQuestion (ask ''T'' ''D''), PostReply (ObjectId 0) (say ''hi''),
      DeleteQuestion (ObjectId 0)]"

text \<open>A store with three users, to tell the user that a login matched from the others.\<close>

definition store3 :: store where
  "store3 = \<lparr>users =
      [\<lparr>u_id = 0, firstName = ''Ada'', lastName = ''L'', email = ''ada@x.org'',
         password = ''#pw''\<rparr>,
       \<lparr>u_id = 1, firstName = ''Bob'', lastName = ''M'', email = ''bob@x.org'',
         password = ''#qr''\<rparr>,
       \<lparr>u_id = 2, firstName = ''Cy'', lastName = ''N'', email = ''cy@x.org'',
         password = ''#st''\<rparr>],
     questions = [], replies = [], next_id = 3\<rparr>"

section \<open>Lemmas on the collaborators and the handlers\<close>

lemma find_key_distinct:
  "distinct (map f xs) \<Longrightarrow> (find (\<lambda>x. f x = k) xs = Some x) = (x \<in> set xs \<and> f x = k)"
  by (induction xs) (auto simp: image_iff)

lemma find_key_None: "(find (\<lambda>x. f x = k) xs = None) = (\<forall>x\<in>set xs. f x \<noteq> k)"
  by (induction xs) auto

lemma find_key_Some: "find (\<lambda>x. f x = k) xs = Some x \<Longrightarrow> x \<in> set xs \<and> f x = k"
  by (induction xs) (auto split: if_splits)

lemma map_q_id_write_back: "map q_id (write_back q xs) = map q_id xs"
  by (induction xs) auto

lemma set_delete_one: "set (delete_one i xs) \<subseteq> set xs"
  by (induction xs) auto

lemma distinct_delete_one: "distinct (map q_id xs) \<Longrightarrow> distinct (map q_id (delete_one i xs))"
proof (induction xs)
  case Nil
  then show ?case by simp
next
  case (Cons x xs)
  then show ?case using set_delete_one [of i xs] by auto
qed

lemma delete_one_removes:
  "distinct (map q_id xs) \<Longrightarrow> \<forall>q\<in>set (delete_one i xs). q_id q \<noteq> i"
  by (induction xs) (auto simp: image_iff)

lemma users_post_signup:
  "users (snd (post_signup uf h s b)) = users s
   \<or> (\<exists>u. users (snd (post_signup uf h s b)) = users s @ [u]
          \<and> (\<forall>v\<in>set (users s). email v \<noteq> email u))"
  by (auto simp: post_signup_def User_save_def fresh_id_def find_key_None
      split: option.splits sum.splits prod.splits if_splits)

lemma users_handle:
  "users (snd (handle en s r)) = users s
   \<or> (\<exists>u. users (snd (handle en s r)) = users s @ [u]
          \<and> (\<forall>v\<in>set (users s). email v \<noteq> email u))"
proof (cases r)
  case (Signup salt b)
  then show ?thesis using users_post_signup by simp
next
  case (Login b)
  then show ?thesis
    by (simp add: post_login_def split: option.splits sum.splits)
next
  case GetQuestions
  then show ?thesis by (simp add: get_questions_def)
next
  case (PostQuestion b)
  then show ?thesis
    by (auto simp: post_questions_def fresh_id_def Question_save_new_def Let_def
        split: option.splits sum.splits prod.splits if_splits)
next
  case (PatchQuestion p b)
  then show ?thesis
    by (auto simp: patch_question_def Question_save_def Let_def
        split: option.splits sum.splits)
next
  case (DeleteQuestion p)
  then show ?thesis
    by (auto simp: delete_question_def Question_findByIdAndDelete_def
        split: option.splits sum.splits prod.splits param.splits)
next
  case (PostReply p b)
  then show ?thesis
    by (auto simp: post_reply_def fresh_id_def Reply_save_new_def Let_def
        split: option.splits sum.splits prod.splits if_splits)
next
  case (GetReplies p)
  then show ?thesis by (simp add: get_replies_def split: sum.splits)
qed

lemma emails_distinct_handle:
  assumes "distinct (map email (users s))"
  shows "distinct (map email (users (snd (handle en s r))))"
proof -
  consider "users (snd (handle en s r)) = users s"
    | u where "users (snd (handle en s r)) = users s @ [u]"
        and "\<forall>v\<in>set (users s). email v \<noteq> email u"
    using users_handle [of en s r] by blast
  then show ?thesis
  proof cases
    case 1
    with assms show ?thesis by simp
  next
    case 2
    from 2(2) have "email u \<notin> email ` set (users s)" by force
    with 2(1) assms show ?thesis by simp
  qed
qed

lemma registered_handle:
  assumes "\<exists>u\<in>set (users s). email u = e"
  shows "\<exists>u\<in>set (users (snd (handle en s r))). email u = e"
  using users_handle [of en s r] assms by auto

lemma emails_distinct_run:
  "distinct (map email (users s)) \<Longrightarrow> distinct (map email (users (run en s rs)))"
  by (induction rs arbitrary: s) (simp_all add: emails_distinct_handle)

lemma registered_run:
  "\<exists>u\<in>set (users s). email u = e \<Longrightarrow> \<exists>u\<in>set (users (run en s rs)). email u = e"
proof (induction rs arbitrary: s)
  case Nil
  then show ?case by simp
next
  case (Cons r rs)
  from registered_handle [OF Cons.prems] show ?case
    by (simp add: Cons.IH)
qed

lemma post_signup_registered:
  assumes "b_email b = Some e" and "\<exists>u\<in>set (users s). email u = e"
  shows "post_signup uf h s b = (\<lparr>status = 400, payload = Message ''Email already in use''\<rparr>, s)"
proof -
  from assms(2) have "find (\<lambda>u. email u = e) (users s) \<noteq> None"
    by (simp add: find_key_None)
  with assms(1) show ?thesis
    by (auto simp: post_signup_def User_findOne_def)
qed

lemma post_signup_fresh:
  assumes "b_firstName b = Some f" and "f \<noteq> []"
    and "b_lastName b = Some l" and "l \<noteq> []"
    and "b_email b = Some e" and "e \<noteq> []"
    and "b_password b = Some p" and "h p \<noteq> []"
    and "\<forall>u\<in>set (users s). email u \<noteq> e"
  shows "post_signup uf h s b =
     (\<lparr>status = 201, payload = Message ''User registered successfully!''\<rparr>,
      s\<lparr>users := users s @ [\<lparr>u_id = next_id s, firstName = f, lastName = l, email = e,
            password = h p\<rparr>], next_id := Suc (next_id s)\<rparr>)"
proof -
  from assms(9) have "find (\<lambda>u. email u = e) (users s) = None"
    by (simp add: find_key_None)
  with assms show ?thesis
    by (simp add: post_signup_def User_findOne_def bcrypt_hash_def fresh_id_def User_save_def)
qed

lemma find_write_back:
  "find (\<lambda>x. q_id x = i) xs = Some q \<Longrightarrow> q_id q' = i
   \<Longrightarrow> find (\<lambda>x. q_id x = i) (write_back q' xs) = Some q'"
  by (induction xs) (auto split: if_splits)

lemma map_write_back:
  "find (\<lambda>x. q_id x = i) xs = Some q \<Longrightarrow> q_id q' = i \<Longrightarrow> f q' = f q
   \<Longrightarrow> map f (write_back q' xs) = map f xs"
  by (induction xs) (auto split: if_splits)

lemma post_questions_valid:
  assumes "b_title b = Some T" and "T \<noteq> []" and "b_description b = Some D" and "D \<noteq> []"
  shows "post_questions s b =
     (\<lparr>status = 201, payload = MessageQuestion ''Question created successfully!''
         \<lparr>q_id = next_id s, title = T, description = D, resolved = False, upvotes = 0\<rparr>\<rparr>,
      s\<lparr>questions := questions s
           @ [\<lparr>q_id = next_id s, title = T, description = D, resolved = False, upvotes = 0\<rparr>],
        next_id := Suc (next_id s)\<rparr>)"
  using assms by (simp add: post_questions_def fresh_id_def Question_save_new_def Let_def)

lemma post_reply_missing:
  assumes "\<forall>q\<in>set (questions s). q_id q \<noteq> x"
  shows "post_reply s (ObjectId x) b
           = (\<lparr>status = 404, payload = Message ''Question not found''\<rparr>, s)"
proof -
  from assms have "find (\<lambda>q. q_id q = x) (questions s) = None"
    by (simp add: find_key_None)
  then show ?thesis by (simp add: post_reply_def Question_findById_def)
qed

lemma ids_write_back: "q_id ` set (write_back q xs) = q_id ` set xs"
  using map_q_id_write_back [of q xs] by (metis set_map)

lemma ball_write_back:
  "(\<forall>x\<in>set (write_back q xs). q_id x < n) = (\<forall>x\<in>set xs. q_id x < n)"
  by (induction xs) auto

lemma ids_delete_one: "q_id ` set (delete_one i xs) \<subseteq> q_id ` set xs"
  using set_delete_one [of i xs] by blast

lemma questions_handle:
  "next_id s \<le> next_id (snd (handle en s r))
   \<and> q_id ` set (questions (snd (handle en s r)))
        \<subseteq> insert (next_id s) (q_id ` set (questions s))"
proof (cases r)
  case (Signup salt b)
  then show ?thesis
    by (auto simp: post_signup_def fresh_id_def User_save_def
        split: option.splits sum.splits if_splits)
next
  case (Login b)
  then show ?thesis by (auto simp: post_login_def split: option.splits sum.splits)
next
  case GetQuestions
  then show ?thesis by (auto simp: get_questions_def)
next
  case (PostQuestion b)
  then show ?thesis
    by (auto simp: post_questions_def fresh_id_def Question_save_new_def Let_def
        split: option.splits if_splits)
next
  case (PatchQuestion p b)
  then show ?thesis
    by (auto simp: patch_question_def Question_save_def Let_def ids_write_back
        split: option.splits sum.splits)
next
  case (DeleteQuestion p)
  then show ?thesis
    using ids_delete_one
    by (auto simp: delete_question_def Question_findByIdAndDelete_def
        split: option.splits param.splits)
next
  case (PostReply p b)
  then show ?thesis
    by (auto simp: post_reply_def fresh_id_def Reply_save_new_def Let_def
        split: option.splits sum.splits if_splits)
next
  case (GetReplies p)
  then show ?thesis by (auto simp: get_replies_def split: sum.splits)
qed

lemma retired_handle:
  assumes "retired i s"
  shows "retired i (snd (handle en s r))"
proof -
  from assms have lt: "i < next_id s" and out: "i \<notin> q_id ` set (questions s)"
    by (auto simp: retired_def)
  from lt out have "i \<notin> insert (next_id s) (q_id ` set (questions s))" by simp
  with questions_handle [of s en r] lt
  have "i < next_id (snd (handle en s r))"
    and "i \<notin> q_id ` set (questions (snd (handle en s r)))"
    by (simp, blast)
  then show ?thesis by (auto simp: retired_def)
qed

lemma retired_run: "retired i s \<Longrightarrow> retired i (run en s rs)"
  by (induction rs arbitrary: s) (simp_all add: retired_handle)

lemma retired_not_found:
  assumes "retired i s"
  shows "patch_question s (ObjectId i) b
           = (\<lparr>status = 404, payload = Message ''Question not found''\<rparr>, s)"
    and "fst (delete_question s (ObjectId i))
           = \<lparr>status = 404, payload = Message ''Question not found''\<rparr>"
proof -
  from assms have "find (\<lambda>q. q_id q = i) (questions s) = None"
    by (simp add: retired_def find_key_None)
  then show "patch_question s (ObjectId i) b
           = (\<lparr>status = 404, payload = Message ''Question not found''\<rparr>, s)"
    and "fst (delete_question s (ObjectId i))
           = \<lparr>status = 404, payload = Message ''Question not found''\<rparr>"
    by (simp_all add: patch_question_def delete_question_def Question_findById_def
        Question_findByIdAndDelete_def)
qed

lemma delete_retires:
  assumes "ids_ok s" and "status (fst (delete_question s (ObjectId i))) = 200"
  shows "retired i (snd (delete_question s (ObjectId i)))"
proof -
  from assms(2) obtain q where q: "find (\<lambda>q. q_id q = i) (questions s) = Some q"
    by (auto simp: delete_question_def Question_findByIdAndDelete_def split: option.splits)
  from find_key_Some [OF q] assms(1) have "i < next_id s" by (auto simp: ids_ok_def)
  moreover from assms(1) have "\<forall>q\<in>set (delete_one i (questions s)). q_id q \<noteq> i"
    using delete_one_removes [of "questions s" i] by (simp add: ids_ok_def)
  ultimately show ?thesis using q
    by (simp add: retired_def delete_question_def Question_findByIdAndDelete_def)
qed

lemma ids_ok_empty: "ids_ok empty_store"
  by (simp add: ids_ok_def empty_store_def)

lemma ids_ok_handle:
  assumes "ids_ok s"
  shows "ids_ok (snd (handle en s r))"
proof (cases r)
  case (Signup salt b)
  with assms show ?thesis
    by (auto simp: ids_ok_def post_signup_def fresh_id_def User_save_def
        split: option.splits sum.splits if_splits)
next
  case (Login b)
  with assms show ?thesis by (simp add: post_login_def split: option.splits sum.splits)
next
  case GetQuestions
  with assms show ?thesis by (simp add: get_questions_def)
next
  case (PostQuestion b)
  with assms show ?thesis
    by (auto simp: ids_ok_def post_questions_def fresh_id_def Question_save_new_def Let_def
        split: option.splits if_splits)
next
  case (PatchQuestion p b)
  with assms show ?thesis
    by (simp add: ids_ok_def patch_question_def Question_save_def Let_def map_q_id_write_back
        ball_write_back split: option.splits sum.splits)
next
  case (DeleteQuestion p)
  with assms show ?thesis
    using set_delete_one
    by (auto simp: ids_ok_def delete_question_def Question_findByIdAndDelete_def
        distinct_delete_one split: option.splits param.splits)
next
  case (PostReply p b)
  with assms show ?thesis
    by (auto simp: ids_ok_def post_reply_def fresh_id_def Reply_save_new_def Let_def
        split: option.splits sum.splits if_splits)
next
  case (GetReplies p)
  with assms show ?thesis by (simp add: get_replies_def split: sum.splits)
qed

lemma ids_ok_run: "ids_ok s \<Longrightarrow> ids_ok (run en s rs)"
  by (induction rs arbitrary: s) (simp_all add: ids_ok_handle)

lemma find_append_new:
  "find P xs = None \<Longrightarrow> find P (xs @ [y]) = (if P y then Some y else None)"
  by (induction xs) (auto split: if_splits)

lemma User_findOne_stored: "User_findOne uf s e = Some u \<Longrightarrow> u \<in> set (users s)"
  by (auto simp: User_findOne_def find_Some_iff split: option.splits undefined_filter.splits)

lemma post_login_ok:
  assumes "status (fst (post_login uf c s b)) = 200"
  shows "\<exists>u. User_findOne uf s (b_email b) = Some u
           \<and> bcrypt_compare c (b_password b) (password u) = Inr True
           \<and> post_login uf c s b
               = (\<lparr>status = 200, payload = MessageUser ''Login successful'' u\<rparr>, s)"
  using assms
  by (auto simp: post_login_def split: option.splits sum.splits if_splits)

lemma post_signup_ok:
  assumes "status (fst (post_signup uf h s b)) = 201"
  shows "\<exists>f l e p. b_firstName b = Some f \<and> b_lastName b = Some l \<and> b_email b = Some e
           \<and> b_password b = Some p \<and> find (\<lambda>u. email u = e) (users s) = None
           \<and> post_signup uf h s b
               = (\<lparr>status = 201, payload = Message ''User registered successfully!''\<rparr>,
                  s\<lparr>users := users s @ [\<lparr>u_id = next_id s, firstName = f, lastName = l,
                        email = e, password = h p\<rparr>], next_id := Suc (next_id s)\<rparr>)"
  using assms
  by (auto simp: post_signup_def bcrypt_hash_def fresh_id_def User_save_def
      split: option.splits sum.splits prod.splits if_splits)

section \<open>Login\<close>

text \<open>
  Claim C1. In a store whose emails are pairwise distinct, a login request carrying an
  email and a password succeeds (status 200) exactly when some stored user has that email
  and the password verifies against that user's stored digest. Every other such request
  is answered with status 400 and the one message \<open>Invalid email or password\<close>,
  whether the email is unknown or the password does not verify. Login never changes the
  store.
\<close>

theorem login_succeeds_iff:
  assumes "distinct (map email (users s))"
    and "b_email b = Some e" and "b_password b = Some p"
  shows "(status (fst (post_login uf c s b)) = 200
            \<longleftrightarrow> (\<exists>u\<in>set (users s). email u = e \<and> c p (password u)))
       \<and> (status (fst (post_login uf c s b)) \<noteq> 200
            \<longrightarrow> fst (post_login uf c s b)
                 = \<lparr>status = 400, payload = Message ''Invalid email or password''\<rparr>)
       \<and> snd (post_login uf c s b) = s"
proof (cases "find (\<lambda>u. email u = e) (users s)")
  case None
  then have "\<forall>u\<in>set (users s). email u \<noteq> e" by (simp add: find_key_None)
  with None assms show ?thesis
    by (auto simp: post_login_def User_findOne_def)
next
  case (Some u)
  with assms(1) have u: "u \<in> set (users s)" "email u = e"
    by (simp_all add: find_key_distinct)
  have uniq: "v = u" if "v \<in> set (users s)" "email v = e" for v
    using that Some assms(1) find_key_distinct [of email "users s" e v] by simp
  show ?thesis
  proof (cases "c p (password u)")
    case True
    with Some assms u show ?thesis
      by (auto simp: post_login_def User_findOne_def bcrypt_compare_def)
  next
    case False
    with Some assms uniq show ?thesis
      by (auto simp: post_login_def User_findOne_def bcrypt_compare_def)
  qed
qed

theorem login_succeeds_iff_witness:
  "distinct (map email (users store1))
   \<and> status (fst (post_login SendsNull verify1 store1
        (credentials ''ada@x.org'' ''pw''))) = 200
   \<and> fst (post_login SendsNull verify1 store1
        (credentials ''ada@x.org'' ''no''))
      = \<lparr>status = 400, payload = Message ''Invalid email or password''\<rparr>
   \<and> fst (post_login SendsNull verify1 store1
        (credentials ''bob@x.org'' ''pw''))
      = \<lparr>status = 400, payload = Message ''Invalid email or password''\<rparr>"
  using login_succeeds_iff [of store1 "credentials ''ada@x.org'' ''pw''" "''ada@x.org''" "''pw''" SendsNull verify1]
    login_succeeds_iff [of store1 "credentials ''ada@x.org'' ''no''" "''ada@x.org''" "''no''" SendsNull verify1]
    login_succeeds_iff [of store1 "credentials ''bob@x.org'' ''pw''" "''bob@x.org''" "''pw''" SendsNull verify1]
  by (simp add: store1_def verify1_def credentials_def empty_body_def)

text \<open>
  Claim C8. Whenever login answers 200, the payload is the message together with the
  user record that the lookup by the request's email returned, whole as it is stored:
  identifier, names, email and the stored \<open>password\<close>. When the request carries an
  email, that record has this email, and where emails are pairwise distinct it is the
  only stored user that has it. Whenever signup answers 201, the response is the message
  alone; the user it stored has the fields of the request with, for \<open>password\<close>,
  the digest computed by bcrypt; and a login with the same body that then answers 200
  sends back exactly this record, digest included.
\<close>

theorem login_returns_stored_user:
  "(status (fst (post_login uf c s b)) = 200
      \<longrightarrow> (\<exists>u. User_findOne uf s (b_email b) = Some u \<and> u \<in> set (users s)
             \<and> fst (post_login uf c s b)
                 = \<lparr>status = 200, payload = MessageUser ''Login successful'' u\<rparr>
             \<and> (\<forall>e. b_email b = Some e \<longrightarrow> email u = e
                    \<and> (distinct (map email (users s))
                         \<longrightarrow> (\<forall>v\<in>set (users s). email v = e \<longrightarrow> v = u)))))
   \<and> (status (fst (post_signup uf h s b)) = 201
      \<longrightarrow> fst (post_signup uf h s b)
            = \<lparr>status = 201, payload = Message ''User registered successfully!''\<rparr>
          \<and> (\<exists>f l e p. b_firstName b = Some f \<and> b_lastName b = Some l \<and> b_email b = Some e
                 \<and> b_password b = Some p
                 \<and> users (snd (post_signup uf h s b))
                     = users s @ [\<lparr>u_id = next_id s, firstName = f, lastName = l, email = e,
                                   password = h p\<rparr>]
                 \<and> (status (fst (post_login uf c (snd (post_signup uf h s b)) b)) = 200
                      \<longrightarrow> payload (fst (post_login uf c (snd (post_signup uf h s b)) b))
                           = MessageUser ''Login successful''
                               \<lparr>u_id = next_id s, firstName = f, lastName = l, email = e,
                                  password = h p\<rparr>)))"
proof (intro conjI impI)
  assume "status (fst (post_login uf c s b)) = 200"
  from post_login_ok [OF this] obtain u
    where u: "User_findOne uf s (b_email b) = Some u"
      and r: "post_login uf c s b
               = (\<lparr>status = 200, payload = MessageUser ''Login successful'' u\<rparr>, s)"
    by blast
  from u have mem: "u \<in> set (users s)" by (rule User_findOne_stored)
  have by_email: "email u = e
       \<and> (distinct (map email (users s)) \<longrightarrow> (\<forall>v\<in>set (users s). email v = e \<longrightarrow> v = u))"
    if e: "b_email b = Some e" for e
  proof -
    from u e have f: "find (\<lambda>u. email u = e) (users s) = Some u"
      by (simp add: User_findOne_def)
    from find_key_Some [OF f] have "email u = e" by simp
    moreover have "v = u"
      if "distinct (map email (users s))" "v \<in> set (users s)" "email v = e" for v
      using that f find_key_distinct [of email "users s" e v] by simp
    ultimately show ?thesis by blast
  qed
  from u mem r by_email
  show "\<exists>u. User_findOne uf s (b_email b) = Some u \<and> u \<in> set (users s)
             \<and> fst (post_login uf c s b)
                 = \<lparr>status = 200, payload = MessageUser ''Login successful'' u\<rparr>
             \<and> (\<forall>e. b_email b = Some e \<longrightarrow> email u = e
                    \<and> (distinct (map email (users s))
                         \<longrightarrow> (\<forall>v\<in>set (users s). email v = e \<longrightarrow> v = u)))"
    by (intro exI [of _ u]) simp
next
  assume ok: "status (fst (post_signup uf h s b)) = 201"
  from post_signup_ok [OF ok] obtain f l e p
    where fields: "b_firstName b = Some f" "b_lastName b = Some l" "b_email b = Some e"
        "b_password b = Some p"
      and fresh: "find (\<lambda>u. email u = e) (users s) = None"
      and r: "post_signup uf h s b
               = (\<lparr>status = 201, payload = Message ''User registered successfully!''\<rparr>,
                  s\<lparr>users := users s @ [\<lparr>u_id = next_id s, firstName = f, lastName = l,
                        email = e, password = h p\<rparr>], next_id := Suc (next_id s)\<rparr>)"
    by blast
  from r show "fst (post_signup uf h s b)
            = \<lparr>status = 201, payload = Message ''User registered successfully!''\<rparr>"
    by simp
  let ?new = "\<lparr>u_id = next_id s, firstName = f, lastName = l, email = e, password = h p\<rparr>"
  have found: "User_findOne uf (snd (post_signup uf h s b)) (b_email b) = Some ?new"
    using fields(3) r find_append_new [OF fresh, of ?new]
    by (simp add: User_findOne_def)
  have again: "payload (fst (post_login uf c (snd (post_signup uf h s b)) b))
                 = MessageUser ''Login successful'' ?new"
    if "status (fst (post_login uf c (snd (post_signup uf h s b)) b)) = 200"
    using post_login_ok [OF that] found by auto
  from fields r again
  show "\<exists>f l e p. b_firstName b = Some f \<and> b_lastName b = Some l \<and> b_email b = Some e
                 \<and> b_password b = Some p
                 \<and> users (snd (post_signup uf h s b))
                     = users s @ [\<lparr>u_id = next_id s, firstName = f, lastName = l, email = e,
                                   password = h p\<rparr>]
                 \<and> (status (fst (post_login uf c (snd (post_signup uf h s b)) b)) = 200
                      \<longrightarrow> payload (fst (post_login uf c (snd (post_signup uf h s b)) b))
                           = MessageUser ''Login successful''
                               \<lparr>u_id = next_id s, firstName = f, lastName = l, email = e,
                                  password = h p\<rparr>)"
    by (intro exI [of _ f] exI [of _ l] exI [of _ e] exI [of _ p]) simp
qed

text \<open>
  In a store with three users the login of the second returns her own record with her
  digest; a signup on the empty store returns the message only, and the login that
  follows returns the record just stored.
\<close>

theorem login_returns_stored_user_witness:
  "status (fst (post_login SendsNull verify1 store3 (credentials ''bob@x.org'' ''qr''))) = 200
   \<and> fst (post_login SendsNull verify1 store3 (credentials ''bob@x.org'' ''qr''))
       = \<lparr>status = 200, payload = MessageUser ''Login successful''
           \<lparr>u_id = 1, firstName = ''Bob'', lastName = ''M'', email = ''bob@x.org'',
              password = ''#qr''\<rparr>\<rparr>
   \<and> status (fst (post_signup SendsNull (hash1 7) store3 (credentials ''ada@x.org'' ''pw''))) = 400
   \<and> status (fst (post_signup SendsNull (hash1 7) empty_store ada)) = 201
   \<and> fst (post_signup SendsNull (hash1 7) empty_store ada)
       = \<lparr>status = 201, payload = Message ''User registered successfully!''\<rparr>
   \<and> status (fst (post_login SendsNull verify1
         (snd (post_signup SendsNull (hash1 7) empty_store ada)) ada)) = 200
   \<and> payload (fst (post_login SendsNull verify1
         (snd (post_signup SendsNull (hash1 7) empty_store ada)) ada))
       = MessageUser ''Login successful''
           \<lparr>u_id = 0, firstName = ''Ada'', lastName = ''L'', email = ''ada@x.org'',
              password = ''#pw''\<rparr>"
proof -
  have login: "status (fst (post_login SendsNull verify1 store3
      (credentials ''bob@x.org'' ''qr''))) = 200"
    by (simp add: post_login_def User_findOne_def bcrypt_compare_def store3_def verify1_def
        credentials_def empty_body_def)
  have bob: "User_findOne SendsNull store3 (b_email (credentials ''bob@x.org'' ''qr''))
      = Some \<lparr>u_id = 1, firstName = ''Bob'', lastName = ''M'', email = ''bob@x.org'',
              password = ''#qr''\<rparr>"
    by (simp add: User_findOne_def store3_def credentials_def empty_body_def)
  have taken: "status (fst (post_signup SendsNull (hash1 7) store3
      (credentials ''ada@x.org'' ''pw''))) = 400"
    by (simp add: post_signup_def User_findOne_def store3_def credentials_def empty_body_def)
  have signup: "status (fst (post_signup SendsNull (hash1 7) empty_store ada)) = 201"
    by (simp add: post_signup_def User_findOne_def bcrypt_hash_def fresh_id_def User_save_def
        hash1_def empty_store_def ada_def empty_body_def)
  have relogin: "status (fst (post_login SendsNull verify1
         (snd (post_signup SendsNull (hash1 7) empty_store ada)) ada)) = 200"
    by (simp add: post_signup_def post_login_def User_findOne_def bcrypt_hash_def
        bcrypt_compare_def fresh_id_def User_save_def hash1_def verify1_def empty_store_def
        ada_def empty_body_def)
  have fields: "b_firstName ada = Some ''Ada''" "b_lastName ada = Some ''L''"
    "b_email ada = Some ''ada@x.org''" "b_password ada = Some ''pw''"
    "next_id empty_store = 0" "hash1 7 ''pw'' = ''#pw''"
    by (simp_all add: ada_def empty_body_def empty_store_def hash1_def)
  from login_returns_stored_user [of SendsNull verify1 store3
      "credentials ''bob@x.org'' ''qr''" "hash1 7"] login bob
  have first: "fst (post_login SendsNull verify1 store3 (credentials ''bob@x.org'' ''qr''))
       = \<lparr>status = 200, payload = MessageUser ''Login successful''
           \<lparr>u_id = 1, firstName = ''Bob'', lastName = ''M'', email = ''bob@x.org'',
              password = ''#qr''\<rparr>\<rparr>"
    by auto
  from login_returns_stored_user [of SendsNull verify1 empty_store ada "hash1 7"]
    signup relogin fields
  have second: "fst (post_signup SendsNull (hash1 7) empty_store ada)
       = \<lparr>status = 201, payload = Message ''User registered successfully!''\<rparr>
    \<and> payload (fst (post_login SendsNull verify1
         (snd (post_signup SendsNull (hash1 7) empty_store ada)) ada))
       = MessageUser ''Login successful''
           \<lparr>u_id = 0, firstName = ''Ada'', lastName = ''L'', email = ''ada@x.org'',
              password = ''#pw''\<rparr>"
    by auto
  from login first taken signup relogin second show ?thesis by simp
qed

section \<open>Signup\<close>

text \<open>
  Claim C2. A signup whose four fields are present, with a non-empty first name, last
  name and email, and whose email no stored user has, is answered 201 (bcrypt digests
  are never empty). After it, whatever requests the server handles in between, every
  signup with the same email is answered 400 \<open>Email already in use\<close> and leaves the
  store as it was. In every store reached from the empty one the emails of the users are
  pairwise distinct.
\<close>

theorem signup_once:
  assumes "b_firstName b = Some f" and "f \<noteq> []"
    and "b_lastName b = Some l" and "l \<noteq> []"
    and "b_email b = Some e" and "e \<noteq> []"
    and "b_password b = Some p" and "hash en salt p \<noteq> []"
    and "\<forall>u\<in>set (users s). email u \<noteq> e"
  shows "fst (handle en s (Signup salt b))
           = \<lparr>status = 201, payload = Message ''User registered successfully!''\<rparr>
       \<and> (\<forall>rs salt' b'. b_email b' = Some e \<longrightarrow>
            handle en (run en (snd (handle en s (Signup salt b))) rs) (Signup salt' b')
              = (\<lparr>status = 400, payload = Message ''Email already in use''\<rparr>,
                 run en (snd (handle en s (Signup salt b))) rs))
       \<and> (\<forall>rs. distinct (map email (users (run en empty_store rs))))"
proof (intro conjI allI impI)
  let ?s' = "snd (handle en s (Signup salt b))"
  have step: "handle en s (Signup salt b) =
     (\<lparr>status = 201, payload = Message ''User registered successfully!''\<rparr>,
      s\<lparr>users := users s @ [\<lparr>u_id = next_id s, firstName = f, lastName = l, email = e,
            password = hash en salt p\<rparr>], next_id := Suc (next_id s)\<rparr>)"
    using assms by (simp add: post_signup_fresh)
  then show "fst (handle en s (Signup salt b))
           = \<lparr>status = 201, payload = Message ''User registered successfully!''\<rparr>"
    by simp
  from step have reg: "\<exists>u\<in>set (users ?s'). email u = e" by simp
  show "handle en (run en ?s' rs) (Signup salt' b')
          = (\<lparr>status = 400, payload = Message ''Email already in use''\<rparr>, run en ?s' rs)"
    if "b_email b' = Some e" for rs salt' b'
    using that registered_run [OF reg, of en rs] by (simp add: post_signup_registered)
  show "distinct (map email (users (run en empty_store rs)))" for rs
    by (rule emails_distinct_run) (simp add: empty_store_def)
qed

text \<open>
  On the empty store: the first signup succeeds, and after another request a second
  signup with the same email is refused.
\<close>

theorem signup_once_witness:
  "fst (handle env1 empty_store (Signup 7 ada))
     = \<lparr>status = 201, payload = Message ''User registered successfully!''\<rparr>
   \<and> fst (handle env1 (run env1 (snd (handle env1 empty_store (Signup 7 ada)))
             [PostQuestion (ask ''T'' ''D'')]) (Signup 8 (credentials ''ada@x.org'' ''other'')))
     = \<lparr>status = 400, payload = Message ''Email already in use''\<rparr>"
proof -
  have fresh: "\<forall>u\<in>set (users empty_store). email u \<noteq> ''ada@x.org''"
    by (simp add: empty_store_def)
  have dig: "hash env1 7 ''pw'' \<noteq> []" by (simp add: env1_def hash1_def)
  have fields: "b_firstName ada = Some ''Ada''" "b_lastName ada = Some ''L''"
    "b_email ada = Some ''ada@x.org''" "b_password ada = Some ''pw''"
    by (simp_all add: ada_def empty_body_def)
  have again: "b_email (credentials ''ada@x.org'' ''other'') = Some ''ada@x.org''"
    by (simp add: credentials_def empty_body_def)
  note once = signup_once [OF fields(1) _ fields(2) _ fields(3) _ fields(4) dig fresh]
  have first: "fst (handle env1 empty_store (Signup 7 ada))
     = \<lparr>status = 201, payload = Message ''User registered successfully!''\<rparr>"
    using once by simp
  have "handle env1 (run env1 (snd (handle env1 empty_store (Signup 7 ada)))
             [PostQuestion (ask ''T'' ''D'')]) (Signup 8 (credentials ''ada@x.org'' ''other''))
     = (\<lparr>status = 400, payload = Message ''Email already in use''\<rparr>,
        run env1 (snd (handle env1 empty_store (Signup 7 ada))) [PostQuestion (ask ''T'' ''D'')])"
    using once again by blast
  with first show ?thesis by (simp only: fst_conv simp_thms)
qed

text \<open>
  Claim C3, as stated, fails: a signup without \<open>firstName\<close> on the empty store is
  answered 500, not 400. Nothing in the handler checks that the fields are present; the
  validation error thrown by \<open>save()\<close> reaches the \<open>catch\<close> block, which answers
  500 \<open>Error during signup\<close>.
\<close>

theorem signup_absent_field_counterexample:
  "b_firstName no_first_name = None
   \<and> fst (post_signup SendsNull (hash1 7) empty_store no_first_name)
       = \<lparr>status = 500,
          payload = MessageError ''Error during signup'' (ValidationError [''firstName''])\<rparr>
   \<and> status (fst (post_signup SendsNull (hash1 7) empty_store no_first_name)) \<noteq> 400"
  by (simp add: post_signup_def User_findOne_def bcrypt_hash_def fresh_id_def User_save_def
      required_def no_first_name_def empty_body_def empty_store_def hash1_def)

text \<open>
  Claim C3, amended. A signup in which any of the four fields is absent stores no user
  and is never answered 201. Its answer is 400 \<open>Email already in use\<close> when the
  lookup by email finds a user, and otherwise 500 \<open>Error during signup\<close> with the
  error that was caught.
\<close>

theorem signup_absent_field:
  assumes "b_firstName b = None \<or> b_lastName b = None \<or> b_email b = None \<or> b_password b = None"
  shows "users (snd (post_signup uf h s b)) = users s
       \<and> status (fst (post_signup uf h s b)) \<noteq> 201
       \<and> (case User_findOne uf s (b_email b) of
            Some u \<Rightarrow> fst (post_signup uf h s b)
                       = \<lparr>status = 400, payload = Message ''Email already in use''\<rparr>
          | None \<Rightarrow> (\<exists>err. fst (post_signup uf h s b)
                       = \<lparr>status = 500, payload = MessageError ''Error during signup'' err\<rparr>))"
proof (cases "User_findOne uf s (b_email b)")
  case (Some u)
  then show ?thesis by (simp add: post_signup_def)
next
  case None
  show ?thesis
  proof (cases "b_password b")
    case no_pw: None
    with None show ?thesis by (simp add: post_signup_def bcrypt_hash_def)
  next
    case (Some p)
    with assms have "b_firstName b = None \<or> b_lastName b = None \<or> b_email b = None"
      by simp
    then have "\<exists>err. User_save (snd (fresh_id s)) (fst (fresh_id s)) (b_firstName b)
          (b_lastName b) (b_email b) (Some (h p)) = Inl err"
      by (auto simp: User_save_def split: option.splits)
    then obtain err where "User_save (snd (fresh_id s)) (fst (fresh_id s)) (b_firstName b)
          (b_lastName b) (b_email b) (Some (h p)) = Inl err" ..
    with None Some show ?thesis
      by (simp add: post_signup_def bcrypt_hash_def fresh_id_def)
  qed
qed

text \<open>
  Both answers on a request without \<open>firstName\<close>: 400 when the lookup finds a
  user, 500 on the empty store.
\<close>

theorem signup_absent_field_witness:
  "b_firstName no_first_name = None
   \<and> users (snd (post_signup DropsKey (hash1 7) store1 no_first_name)) = users store1
   \<and> fst (post_signup DropsKey (hash1 7) store1 no_first_name)
       = \<lparr>status = 400, payload = Message ''Email already in use''\<rparr>
   \<and> (\<exists>err. fst (post_signup DropsKey (hash1 7) empty_store no_first_name)
       = \<lparr>status = 500, payload = MessageError ''Error during signup'' err\<rparr>)"
proof -
  have absent: "b_firstName no_first_name = None \<or> b_lastName no_first_name = None
      \<or> b_email no_first_name = None \<or> b_password no_first_name = None"
    by (simp add: no_first_name_def empty_body_def)
  have found: "User_findOne DropsKey store1 (b_email no_first_name)
      = Some \<lparr>u_id = 0, firstName = ''Ada'', lastName = ''L'', email = ''ada@x.org'',
          password = ''#pw''\<rparr>"
    by (simp add: User_findOne_def no_first_name_def empty_body_def store1_def)
  have none: "User_findOne DropsKey empty_store (b_email no_first_name) = None"
    by (simp add: User_findOne_def no_first_name_def empty_body_def empty_store_def)
  from signup_absent_field [OF absent, of DropsKey "hash1 7" store1]
    signup_absent_field [OF absent, of DropsKey "hash1 7" empty_store]
  show ?thesis by (simp add: found none) (simp add: no_first_name_def empty_body_def)
qed

section \<open>Questions\<close>

text \<open>
  Claim C4. When creating a question with title \<open>T\<close> and description \<open>D\<close> is
  answered 201, listing the questions of the resulting store is answered 200 with an array
  that holds a question with title \<open>T\<close>, description \<open>D\<close>, \<open>resolved\<close> false
  and \<open>upvotes\<close> 0.
\<close>

theorem create_then_list:
  assumes "b_title b = Some T" and "b_description b = Some D"
    and "status (fst (post_questions s b)) = 201"
  shows "\<exists>qs. fst (get_questions (snd (post_questions s b)))
                = \<lparr>status = 200, payload = QuestionArray qs\<rparr>
            \<and> (\<exists>q\<in>set qs. title q = T \<and> description q = D
                   \<and> resolved q = False \<and> upvotes q = 0)"
  using assms
  by (auto simp: post_questions_def fresh_id_def Question_save_new_def get_questions_def
      Question_find_def Let_def split: if_splits)

text \<open>
  A question created in a store that already holds one.
\<close>

theorem create_then_list_witness:
  "status (fst (post_questions store2 (ask ''Why'' ''Because''))) = 201
   \<and> (\<exists>qs. fst (get_questions (snd (post_questions store2 (ask ''Why'' ''Because''))))
                = \<lparr>status = 200, payload = QuestionArray qs\<rparr>
            \<and> (\<exists>q\<in>set qs. title q = ''Why'' \<and> description q = ''Because''
                   \<and> resolved q = False \<and> upvotes q = 0))"
proof -
  have made: "status (fst (post_questions store2 (ask ''Why'' ''Because''))) = 201"
    by (simp add: post_questions_valid ask_def empty_body_def)
  have "b_title (ask ''Why'' ''Because'') = Some ''Why''"
    and "b_description (ask ''Why'' ''Because'') = Some ''Because''"
    by (simp_all add: ask_def empty_body_def)
  from create_then_list [OF this made] made show ?thesis by blast
qed

text \<open>
  Claim C5. Updating a stored question is answered 200, and the question then listed
  under the same identifier has \<open>resolved\<close> equal to the body's value when the key is
  present and to the old value when it is absent, and likewise \<open>upvotes\<close>. In
  particular the body \<open>{resolved: true}\<close> yields \<open>resolved\<close> true and the old
  \<open>upvotes\<close>.
\<close>

theorem patch_sets_present_keys_only:
  assumes "find (\<lambda>q. q_id q = i) (questions s) = Some q"
  shows "status (fst (patch_question s (ObjectId i) b)) = 200
       \<and> (\<exists>qs q'. fst (get_questions (snd (patch_question s (ObjectId i) b)))
                     = \<lparr>status = 200, payload = QuestionArray qs\<rparr>
            \<and> find (\<lambda>q. q_id q = i) qs = Some q'
            \<and> resolved q' = (case b_resolved b of None \<Rightarrow> resolved q | Some r \<Rightarrow> r)
            \<and> upvotes q' = (case b_upvotes b of None \<Rightarrow> upvotes q | Some n \<Rightarrow> n)
            \<and> (b_resolved b = Some True \<and> b_upvotes b = None
                 \<longrightarrow> resolved q' \<and> upvotes q' = upvotes q))"
proof -
  define q2 where "q2 =
    (case b_upvotes b of
       None \<Rightarrow> (case b_resolved b of None \<Rightarrow> q | Some r \<Rightarrow> q\<lparr>resolved := r\<rparr>)
     | Some n \<Rightarrow> (case b_resolved b of None \<Rightarrow> q | Some r \<Rightarrow> q\<lparr>resolved := r\<rparr>)\<lparr>upvotes := n\<rparr>)"
  from find_key_Some [OF assms] have idq: "q_id q = i" by simp
  then have id2: "q_id q2 = i" by (simp add: q2_def split: option.splits)
  have res: "patch_question s (ObjectId i) b =
      (\<lparr>status = 200, payload = MessageQuestion ''Question updated successfully!'' q2\<rparr>,
       s\<lparr>questions := write_back q2 (questions s)\<rparr>)"
    using assms
    by (simp add: patch_question_def Question_findById_def Question_save_def q2_def Let_def)
  have found: "find (\<lambda>q. q_id q = i) (write_back q2 (questions s)) = Some q2"
    using assms id2 by (rule find_write_back)
  have fields: "resolved q2 = (case b_resolved b of None \<Rightarrow> resolved q | Some r \<Rightarrow> r)"
    "upvotes q2 = (case b_upvotes b of None \<Rightarrow> upvotes q | Some n \<Rightarrow> n)"
    by (simp_all add: q2_def split: option.splits)
  from res found fields show ?thesis
    by (auto simp: get_questions_def Question_find_def)
qed

text \<open>
  The body \<open>{resolved: true}\<close> on a question with 3 upvotes.
\<close>

theorem patch_sets_present_keys_only_witness:
  "find (\<lambda>q. q_id q = 0) (questions store2)
     = Some \<lparr>q_id = 0, title = ''T'', description = ''D'', resolved = False, upvotes = 3\<rparr>
   \<and> (\<exists>qs q'. fst (get_questions (snd (patch_question store2 (ObjectId 0)
                        (empty_body\<lparr>b_resolved := Some True\<rparr>))))
                     = \<lparr>status = 200, payload = QuestionArray qs\<rparr>
            \<and> find (\<lambda>q. q_id q = 0) qs = Some q'
            \<and> resolved q' \<and> upvotes q' = 3)"
proof -
  have stored: "find (\<lambda>q. q_id q = 0) (questions store2)
     = Some \<lparr>q_id = 0, title = ''T'', description = ''D'', resolved = False, upvotes = 3\<rparr>"
    by (simp add: store2_def)
  have keys: "b_resolved (empty_body\<lparr>b_resolved := Some True\<rparr>) = Some True"
    "b_upvotes (empty_body\<lparr>b_resolved := Some True\<rparr>) = None"
    by (simp_all add: empty_body_def)
  from patch_sets_present_keys_only [OF stored, of "empty_body\<lparr>b_resolved := Some True\<rparr>"]
  obtain qs q' where "fst (get_questions (snd (patch_question store2 (ObjectId 0)
                        (empty_body\<lparr>b_resolved := Some True\<rparr>))))
                     = \<lparr>status = 200, payload = QuestionArray qs\<rparr>"
    and "find (\<lambda>q. q_id q = 0) qs = Some q'"
    and "b_resolved (empty_body\<lparr>b_resolved := Some True\<rparr>) = Some True
           \<and> b_upvotes (empty_body\<lparr>b_resolved := Some True\<rparr>) = None
         \<longrightarrow> resolved q' \<and> upvotes q'
           = upvotes \<lparr>q_id = 0, title = ''T'', description = ''D'', resolved = False, upvotes = 3\<rparr>"
    by blast
  with keys stored show ?thesis by auto
qed

text \<open>
  Claim C10. An update leaves the titles, the descriptions and the identifiers of all
  stored questions as they were, for every store, every path parameter and every body,
  also one that carries \<open>title\<close> and \<open>description\<close> keys.
\<close>

theorem patch_keeps_title_and_description:
  "map title (questions (snd (patch_question s p b))) = map title (questions s)
   \<and> map description (questions (snd (patch_question s p b))) = map description (questions s)
   \<and> map q_id (questions (snd (patch_question s p b))) = map q_id (questions s)"
proof (cases "Question_findById s p")
  case (Inl err)
  then show ?thesis by (simp add: patch_question_def)
next
  case (Inr found)
  show ?thesis
  proof (cases found)
    case None
    with Inr show ?thesis by (simp add: patch_question_def)
  next
    case (Some q)
    with Inr obtain i where p: "p = ObjectId i"
      and q: "find (\<lambda>x. q_id x = i) (questions s) = Some q"
      by (auto simp: Question_findById_def split: param.splits)
    define q2 where "q2 =
      (case b_upvotes b of
         None \<Rightarrow> (case b_resolved b of None \<Rightarrow> q | Some r \<Rightarrow> q\<lparr>resolved := r\<rparr>)
       | Some n \<Rightarrow> (case b_resolved b of None \<Rightarrow> q | Some r \<Rightarrow> q\<lparr>resolved := r\<rparr>)\<lparr>upvotes := n\<rparr>)"
    from find_key_Some [OF q] have "q_id q = i" by simp
    then have same: "q_id q2 = i" "title q2 = title q" "description q2 = description q"
      "q_id q2 = q_id q"
      by (simp_all add: q2_def split: option.splits)
    have "questions (snd (patch_question s p b)) = write_back q2 (questions s)"
      using Inr Some by (simp add: patch_question_def Question_save_def q2_def Let_def)
    with map_write_back [OF q same(1), of title] map_write_back [OF q same(1), of description]
      map_write_back [OF q same(1), of q_id] same
    show ?thesis by simp
  qed
qed

text \<open>
  A body with \<open>title\<close>, \<open>description\<close> and \<open>upvotes\<close> keys.
\<close>

theorem patch_keeps_title_and_description_witness:
  "map title (questions (snd (patch_question store2 (ObjectId 0)
      (empty_body\<lparr>b_title := Some ''X'', b_description := Some ''Y'', b_upvotes := Some 9\<rparr>))))
     = [''T'']
   \<and> map description (questions (snd (patch_question store2 (ObjectId 0)
      (empty_body\<lparr>b_title := Some ''X'', b_description := Some ''Y'', b_upvotes := Some 9\<rparr>))))
     = [''D'']"
proof -
  have "map title (questions store2) = [''T'']" "map description (questions store2) = [''D'']"
    by (simp_all add: store2_def)
  with patch_keeps_title_and_description [of store2 "ObjectId 0"
      "empty_body\<lparr>b_title := Some ''X'', b_description := Some ''Y'', b_upvotes := Some 9\<rparr>"]
  show ?thesis by (simp only: simp_thms)
qed

text \<open>
  Claim C7. In a store with well-formed identifiers, once deleting the question \<open>i\<close>
  is answered 200, then after any further requests both an update and a delete of
  \<open>i\<close> are answered 404 \<open>Question not found\<close>: the identifier is never issued
  again.
\<close>

theorem deleted_stays_deleted:
  assumes "ids_ok s" and "status (fst (delete_question s (ObjectId i))) = 200"
  shows "fst (patch_question (run en (snd (delete_question s (ObjectId i))) rs) (ObjectId i) b)
           = \<lparr>status = 404, payload = Message ''Question not found''\<rparr>
       \<and> fst (delete_question (run en (snd (delete_question s (ObjectId i))) rs) (ObjectId i))
           = \<lparr>status = 404, payload = Message ''Question not found''\<rparr>"
proof -
  from assms have "retired i (snd (delete_question s (ObjectId i)))"
    by (rule delete_retires)
  then have "retired i (run en (snd (delete_question s (ObjectId i))) rs)"
    by (rule retired_run)
  then show ?thesis by (simp add: retired_not_found)
qed

text \<open>
  Deleting the only question, creating another one and signing a user up, then
  addressing the deleted identifier again.
\<close>

theorem deleted_stays_deleted_witness:
  "ids_ok store2 \<and> status (fst (delete_question store2 (ObjectId 0))) = 200
   \<and> fst (patch_question (run env1 (snd (delete_question store2 (ObjectId 0)))
             [PostQuestion (ask ''T'' ''D''), Signup 7 ada]) (ObjectId 0)
             (empty_body\<lparr>b_resolved := Some True\<rparr>))
       = \<lparr>status = 404, payload = Message ''Question not found''\<rparr>
   \<and> fst (delete_question (run env1 (snd (delete_question store2 (ObjectId 0)))
             [PostQuestion (ask ''T'' ''D''), Signup 7 ada]) (ObjectId 0))
       = \<lparr>status = 404, payload = Message ''Question not found''\<rparr>"
proof -
  have ok: "ids_ok store2" by (simp add: ids_ok_def store2_def)
  have deleted: "status (fst (delete_question store2 (ObjectId 0))) = 200"
    by (simp add: delete_question_def Question_findByIdAndDelete_def store2_def)
  from deleted_stays_deleted [OF ok deleted] ok deleted show ?thesis by blast
qed

section \<open>Replies\<close>

text \<open>
  Claim C6, as stated, fails: deleting a question does not delete its replies. After a
  question is created, replied to and deleted, no question has its identifier, yet
  listing the replies for it returns the reply.
\<close>

theorem list_replies_counterexample:
  "orphaned = \<lparr>users = [], questions = [],
       replies = [\<lparr>r_id = 1, content = ''hi'', questionId = 0\<rparr>], next_id = 2\<rparr>
   \<and> Question_findById orphaned (ObjectId 0) = Inr None
   \<and> fst (get_replies orphaned (ObjectId 0))
       = \<lparr>status = 200, payload = ReplyArray [\<lparr>r_id = 1, content = ''hi'', questionId = 0\<rparr>]\<rparr>"
  by (simp add: orphaned_def post_questions_def post_reply_def delete_question_def
      get_replies_def fresh_id_def Question_save_new_def Reply_save_new_def
      Question_findById_def Question_findByIdAndDelete_def Reply_find_def
      ask_def say_def empty_body_def empty_store_def Let_def)

text \<open>
  Claim C6, amended. For an identifier \<open>x\<close> that no stored question has, adding a
  reply is answered 404 \<open>Question not found\<close> and changes nothing, while listing the
  replies is answered 200 with the stored replies whose \<open>questionId\<close> is \<open>x\<close>:
  the empty array whenever no stored reply refers to \<open>x\<close>.
\<close>

theorem reply_to_missing_question:
  assumes "\<forall>q\<in>set (questions s). q_id q \<noteq> x"
  shows "post_reply s (ObjectId x) b
           = (\<lparr>status = 404, payload = Message ''Question not found''\<rparr>, s)
       \<and> get_replies s (ObjectId x)
           = (\<lparr>status = 200,
               payload = ReplyArray (filter (\<lambda>r. questionId r = x) (replies s))\<rparr>, s)
       \<and> ((\<forall>r\<in>set (replies s). questionId r \<noteq> x)
            \<longrightarrow> get_replies s (ObjectId x) = (\<lparr>status = 200, payload = ReplyArray []\<rparr>, s))"
proof (intro conjI impI)
  show "post_reply s (ObjectId x) b
           = (\<lparr>status = 404, payload = Message ''Question not found''\<rparr>, s)"
    using assms by (rule post_reply_missing)
  show "get_replies s (ObjectId x)
           = (\<lparr>status = 200,
               payload = ReplyArray (filter (\<lambda>r. questionId r = x) (replies s))\<rparr>, s)"
    by (simp add: get_replies_def Reply_find_def)
  assume "\<forall>r\<in>set (replies s). questionId r \<noteq> x"
  then have "filter (\<lambda>r. questionId r = x) (replies s) = []"
    by (simp add: filter_empty_conv)
  then show "get_replies s (ObjectId x) = (\<lparr>status = 200, payload = ReplyArray []\<rparr>, s)"
    by (simp add: get_replies_def Reply_find_def)
qed

text \<open>
  An identifier that was never issued.
\<close>

theorem reply_to_missing_question_witness:
  "5 \<notin> q_id ` set (questions store2)
   \<and> post_reply store2 (ObjectId 5) (say ''hi'')
       = (\<lparr>status = 404, payload = Message ''Question not found''\<rparr>, store2)
   \<and> get_replies store2 (ObjectId 5) = (\<lparr>status = 200, payload = ReplyArray []\<rparr>, store2)"
proof -
  have missing: "\<forall>q\<in>set (questions store2). q_id q \<noteq> 5" by (simp add: store2_def)
  have unused: "\<forall>r\<in>set (replies store2). questionId r \<noteq> 5" by (simp add: store2_def)
  have "5 \<notin> q_id ` set (questions store2)" by (simp add: store2_def)
  with reply_to_missing_question [OF missing, of "say ''hi''"] unused
  show ?thesis by blast
qed

text \<open>
  Claim C9. Adding a reply looks the question up before the reply is validated: for an
  identifier that no stored question has, the answer is 404 \<open>Question not found\<close>
  for every body, also one without \<open>content\<close>. An answer that carries a validation
  error is only given when the path parameter is the identifier of a stored question
  (and the content is absent or empty).
\<close>

theorem reply_checks_question_first:
  "((\<forall>q\<in>set (questions s). q_id q \<noteq> x)
      \<longrightarrow> post_reply s (ObjectId x) b
            = (\<lparr>status = 404, payload = Message ''Question not found''\<rparr>, s))
   \<and> (\<forall>paths. payload (fst (post_reply s p b)) = ErrorMessage (ValidationError paths)
        \<longrightarrow> (\<exists>q\<in>set (questions s). p = ObjectId (q_id q))
            \<and> (b_content b = None \<or> b_content b = Some []))"
proof (intro conjI allI impI)
  assume "\<forall>q\<in>set (questions s). q_id q \<noteq> x"
  then show "post_reply s (ObjectId x) b
            = (\<lparr>status = 404, payload = Message ''Question not found''\<rparr>, s)"
    by (rule post_reply_missing)
next
  fix paths
  assume inv: "payload (fst (post_reply s p b)) = ErrorMessage (ValidationError paths)"
  show "\<exists>q\<in>set (questions s). p = ObjectId (q_id q)"
  proof (cases p)
    case (NotObjectId v)
    with inv show ?thesis by (simp add: post_reply_def Question_findById_def)
  next
    case (ObjectId i)
    show ?thesis
    proof (cases "find (\<lambda>q. q_id q = i) (questions s)")
      case None
      with inv ObjectId show ?thesis by (simp add: post_reply_def Question_findById_def)
    next
      case (Some q)
      from find_key_Some [OF Some] ObjectId show ?thesis by auto
    qed
  qed
  show "b_content b = None \<or> b_content b = Some []"
  proof (rule ccontr)
    assume "\<not> (b_content b = None \<or> b_content b = Some [])"
    then obtain c where "b_content b = Some c" "c \<noteq> []" by auto
    with inv show False
      by (auto simp: post_reply_def Question_findById_def Reply_save_new_def fresh_id_def
          Let_def split: param.splits option.splits)
  qed
qed

text \<open>
  The empty body, sent for an identifier without a question and for a stored question.
\<close>

theorem reply_checks_question_first_witness:
  "5 \<notin> q_id ` set (questions store2)
   \<and> post_reply store2 (ObjectId 5) empty_body
       = (\<lparr>status = 404, payload = Message ''Question not found''\<rparr>, store2)
   \<and> payload (fst (post_reply store2 (ObjectId 0) empty_body))
       = ErrorMessage (ValidationError [''content''])
   \<and> (\<exists>q\<in>set (questions store2). ObjectId 0 = ObjectId (q_id q))"
proof -
  have missing: "\<forall>q\<in>set (questions store2). q_id q \<noteq> 5" by (simp add: store2_def)
  have invalid: "payload (fst (post_reply store2 (ObjectId 0) empty_body))
       = ErrorMessage (ValidationError [''content''])"
    by (simp add: post_reply_def Question_findById_def Reply_save_new_def fresh_id_def
        required_def store2_def empty_body_def)
  have "5 \<notin> q_id ` set (questions store2)" by (simp add: store2_def)
  with reply_checks_question_first [of store2 5 empty_body "ObjectId 0"] missing invalid
  show ?thesis by blast
qed

end
